theory Spec2Isabelle
  imports Complex_Main "HOL-Library.Log_Nat"
begin

section \<open>JavaScript numbers\<close>

text \<open>
  The numbers of the program are IEEE 754 doubles. A finite double is represented by the
  real number it stands for, and an operation on doubles by the exact operation followed
  by rounding to 53 significant bits, to nearest, ties to even. \<open>NegZero\<close> is the
  negative zero; \<open>Finite 0\<close> is the positive one.
\<close>

datatype number = Finite real | NegZero | PosInf | NegInf | NaN

definition pow2 :: "int \<Rightarrow> real" where
  "pow2 e = (if 0 \<le> e then 2 ^ nat e else 1 / 2 ^ nat (- e))"

text \<open>For \<open>x > 0\<close>, the exponent \<open>e\<close> with \<open>2\<^sup>e \<le> x < 2\<^sup>e\<^sup>+\<^sup>1\<close>.\<close>

definition ilog2 :: "real \<Rightarrow> int" where
  "ilog2 x = (if 1 \<le> x then bitlen \<lfloor>x\<rfloor> - 1 else - bitlen (\<lceil>1 / x\<rceil> - 1))"

definition roundTiesToEven :: "real \<Rightarrow> int" where
  "roundTiesToEven t =
     (let f = \<lfloor>t\<rfloor>; r = t - of_int f
      in if r < 1 / 2 then f else if 1 / 2 < r then f + 1 else if even f then f else f + 1)"

text \<open>
  Rounding of a real to 53 significant bits. The exponent is not bounded here: what is
  too large for a double is dealt with by \<open>overflow\<close>, and a sum or difference of two
  doubles that is too small for a normal double is a double itself.
\<close>

definition round64 :: "real \<Rightarrow> real" where
  "round64 x =
     (if x = 0 then 0
      else let u = pow2 (ilog2 \<bar>x\<bar> - 52) in of_int (roundTiesToEven (x / u)) * u)"

definition overflow :: "real \<Rightarrow> number" where
  "overflow r =
     (if 2 ^ 1024 \<le> r then PosInf else if r \<le> - (2 ^ 1024) then NegInf else Finite r)"

text \<open>
  A decimal literal of the source, such as \<^verbatim>\<open>0.1\<close>: the double nearest to it. (The
  literals of the source are of ordinary size; a literal below the smallest normal double
  would need a coarser rounding.)
\<close>

definition lit :: "real \<Rightarrow> number" where
  "lit x = overflow (round64 x)"

text \<open>\<^verbatim>\<open>a + b\<close>, \<^verbatim>\<open>-a\<close>, \<^verbatim>\<open>a - b\<close>, \<^verbatim>\<open>a <= b\<close> and \<^verbatim>\<open>Math.max(a, b)\<close>.\<close>

fun fadd :: "number \<Rightarrow> number \<Rightarrow> number" where
  "fadd (Finite x) (Finite y) = overflow (round64 (x + y))"
| "fadd (Finite x) NegZero = Finite x"
| "fadd NegZero (Finite y) = Finite y"
| "fadd NegZero NegZero = NegZero"
| "fadd NaN b = NaN"
| "fadd a NaN = NaN"
| "fadd PosInf NegInf = NaN"
| "fadd NegInf PosInf = NaN"
| "fadd PosInf b = PosInf"
| "fadd a PosInf = PosInf"
| "fadd NegInf b = NegInf"
| "fadd a NegInf = NegInf"

fun fneg :: "number \<Rightarrow> number" where
  "fneg (Finite x) = (if x = 0 then NegZero else Finite (- x))"
| "fneg NegZero = Finite 0"
| "fneg PosInf = NegInf"
| "fneg NegInf = PosInf"
| "fneg NaN = NaN"

definition fsub :: "number \<Rightarrow> number \<Rightarrow> number" where
  "fsub a b = fadd a (fneg b)"

fun realOf :: "number \<Rightarrow> real" where
  "realOf (Finite x) = x"
| "realOf a = 0"

fun fle :: "number \<Rightarrow> number \<Rightarrow> bool" where
  "fle NaN b = False"
| "fle a NaN = False"
| "fle NegInf b = True"
| "fle a PosInf = True"
| "fle PosInf b = False"
| "fle a NegInf = False"
| "fle a b = (realOf a \<le> realOf b)"

fun fmax :: "number \<Rightarrow> number \<Rightarrow> number" where
  "fmax NaN b = NaN"
| "fmax a NaN = NaN"
| "fmax NegZero NegZero = NegZero"
| "fmax NegZero (Finite y) = (if 0 \<le> y then Finite y else NegZero)"
| "fmax (Finite x) NegZero = (if 0 \<le> x then Finite x else NegZero)"
| "fmax a b = (if fle b a then a else b)"

text \<open>
  The values that \<^verbatim>\<open>ctx.currentTime\<close> and \<^verbatim>\<open>audioBuffer.duration\<close> take: finite
  doubles that are not negative. \<open>isDouble\<close> holds of every finite double, and of no
  real that needs more than 53 significant bits or is as large as \<open>2\<^sup>1\<^sup>0\<^sup>2\<^sup>4\<close>.
\<close>

definition isDouble :: "real \<Rightarrow> bool" where
  "isDouble x \<longleftrightarrow> round64 x = x \<and> \<bar>x\<bar> < 2 ^ 1024"

fun timeValue :: "number \<Rightarrow> bool" where
  "timeValue (Finite x) = (0 \<le> x \<and> isDouble x)"
| "timeValue a = False"


section \<open>VibrationAnalyzer: component state and event handlers\<close>

text \<open>
  The model follows \<^verbatim>\<open>src/VibrationAnalyzer.tsx\<close> and \<^verbatim>\<open>src/types.ts\<close>.
  Every \<^verbatim>\<open>useState\<close> cell of the component is a field of the record
  \<open>analyzer_state\<close>. What the handlers do to the browser is kept in three more
  fields: the local storage, the list of \<^verbatim>\<open>alert\<close> messages shown so far and
  the list of requests handed to the remote analysis service.
\<close>

datatype Severity = NORMAL | PREWARNING | WARNING | ALARM

fun Severity_value :: "Severity \<Rightarrow> string" where
  "Severity_value NORMAL = ''Normal''"
| "Severity_value PREWARNING = ''Prewarning''"
| "Severity_value WARNING = ''Warning''"
| "Severity_value ALARM = ''Alarm''"

record AnalysisResult =
  faults :: "string list"
  severity :: Severity
  recommendations :: "string list"
  rawAnalysis :: string

datatype ImageType = TWaveform | TSpectrum | THistorical

datatype View = VWaveform | VSpectrum | VCompare

datatype Thumb = Up | Down

record BearingParams =
  bpfo :: string
  bpfi :: string
  bsf :: string

text \<open>The arguments of one call of \<^verbatim>\<open>analyzeVibrationData\<close>.\<close>

record AnalysisRequest =
  req_waveform :: "string option"
  req_spectrum :: "string option"
  req_bearingParams :: BearingParams
  req_equipment :: string
  req_bearing :: string
  req_direction :: string

text \<open>
  Local storage holds text. The component only ever reads it through
  \<^verbatim>\<open>JSON.parse\<close> and writes it through \<^verbatim>\<open>JSON.stringify\<close>, so a stored
  text is represented by what it parses to: \<open>Stringified j\<close> is the text of the JSON
  value \<open>j\<close> that \<^verbatim>\<open>JSON.parse\<close> returns for it, and \<open>Unparsable t\<close> is a text
  \<open>t\<close> that is not JSON (the empty text among them). A number in a JSON text is read as
  a double, so \<^verbatim>\<open>1e400\<close> is read as infinity and \<^verbatim>\<open>-0\<close> as the negative zero.
\<close>

datatype json =
    JNull
  | JBool bool
  | JNum number
  | JStr string
  | JArr "json list"
  | JObj "(string \<times> json) list"

datatype stored_text = Stringified json | Unparsable string

datatype js_error = SyntaxError | TypeError | EncodingError

fun JSON_parse :: "stored_text \<Rightarrow> js_error + json" where
  "JSON_parse (Stringified j) = Inr j"
| "JSON_parse (Unparsable t) = Inl SyntaxError"

text \<open>
  \<^verbatim>\<open>JSON.stringify\<close> writes an infinity or a NaN as \<^verbatim>\<open>null\<close> and the negative
  zero as \<^verbatim>\<open>0\<close>; \<open>written j\<close> is what the text written for \<open>j\<close> parses to.
\<close>

fun writtenNumber :: "number \<Rightarrow> json" where
  "writtenNumber (Finite x) = JNum (Finite x)"
| "writtenNumber NegZero = JNum (Finite 0)"
| "writtenNumber a = JNull"

fun written :: "json \<Rightarrow> json" where
  "written (JNum a) = writtenNumber a"
| "written (JArr xs) = JArr (map written xs)"
| "written (JObj kvs) = JObj (map (map_prod id written) kvs)"
| "written j = j"

definition JSON_stringify :: "json \<Rightarrow> stored_text" where
  "JSON_stringify j = Stringified (written j)"

record analyzer_state =
  analyzing :: bool
  result :: "AnalysisResult option"
  isDownloading :: bool
  waveformImage :: "string option"
  spectrumImage :: "string option"
  historicalImage :: "string option"
  activeView :: View
  overlayOpacity :: int
  dragActiveWaveform :: bool
  dragActiveSpectrum :: bool
  dragActiveHistorical :: bool
  feedbackGiven :: "Thumb option"
  equipmentName :: string
  bearingId :: string
  direction :: string
  bearingParams :: BearingParams
  localStorage :: "string \<rightharpoonup> stored_text"
  alertLog :: "string list"
  requests :: "AnalysisRequest list"

text \<open>The state right after the component is mounted, over a given local storage.\<close>

definition analyzer_init :: "(string \<rightharpoonup> stored_text) \<Rightarrow> analyzer_state" where
  "analyzer_init ls =
     \<lparr> analyzing = False, result = None, isDownloading = False,
       waveformImage = None, spectrumImage = None, historicalImage = None,
       activeView = VSpectrum, overlayOpacity = 50,
       dragActiveWaveform = False, dragActiveSpectrum = False, dragActiveHistorical = False,
       feedbackGiven = None, equipmentName = [], bearingId = [],
       direction = ''Horizontal'',
       bearingParams = \<lparr> bpfo = [], bpfi = [], bsf = [] \<rparr>,
       localStorage = ls, alertLog = [], requests = [] \<rparr>"

text \<open>
  JavaScript truthiness of a \<^verbatim>\<open>string | null\<close>: \<^verbatim>\<open>null\<close> and the empty string
  are falsy. Every test on an image in the source (\<^verbatim>\<open>!waveformImage\<close>,
  \<^verbatim>\<open>historicalImage && spectrumImage\<close>, \<^verbatim>\<open>!imageState\<close>) is this test.
\<close>

fun truthy :: "string option \<Rightarrow> bool" where
  "truthy None = False"
| "truthy (Some t) = (t \<noteq> [])"

subsection \<open>Image upload and the view that follows it\<close>

text \<open>
  The effect of lines 95 to 99. Its three branches set the view; when no image is
  there, nothing is set.
\<close>

definition autoSwitchView :: "analyzer_state \<Rightarrow> analyzer_state" where
  "autoSwitchView s =
     (if truthy (historicalImage s) \<and> truthy (spectrumImage s) then s\<lparr>activeView := VCompare\<rparr>
      else if truthy (spectrumImage s) then s\<lparr>activeView := VSpectrum\<rparr>
      else if truthy (waveformImage s) then s\<lparr>activeView := VWaveform\<rparr>
      else s)"

text \<open>
  The effect is declared with the dependency list
  \<^verbatim>\<open>[waveformImage, spectrumImage, historicalImage]\<close>: after a state update it runs
  when one of the three cells holds another value than before.
\<close>

definition depsChanged :: "analyzer_state \<Rightarrow> analyzer_state \<Rightarrow> bool" where
  "depsChanged s s' \<longleftrightarrow>
     waveformImage s \<noteq> waveformImage s' \<or> spectrumImage s \<noteq> spectrumImage s'
     \<or> historicalImage s \<noteq> historicalImage s'"

definition commit :: "analyzer_state \<Rightarrow> analyzer_state \<Rightarrow> analyzer_state" where
  "commit s s' = (if depsChanged s s' then autoSwitchView s' else s')"

fun imageOf :: "ImageType \<Rightarrow> analyzer_state \<Rightarrow> string option" where
  "imageOf TWaveform s = waveformImage s"
| "imageOf TSpectrum s = spectrumImage s"
| "imageOf THistorical s = historicalImage s"

text \<open>
  \<^verbatim>\<open>setWaveformImage\<close>, \<^verbatim>\<open>setSpectrumImage\<close> and \<^verbatim>\<open>setHistoricalImage\<close>,
  each followed by the render that runs the effect. The "Remove Image" button calls
  them with \<^verbatim>\<open>null\<close>.
\<close>

fun setImageState :: "ImageType \<Rightarrow> string option \<Rightarrow> analyzer_state \<Rightarrow> analyzer_state" where
  "setImageState TWaveform v s = commit s (s\<lparr>waveformImage := v\<rparr>)"
| "setImageState TSpectrum v s = commit s (s\<lparr>spectrumImage := v\<rparr>)"
| "setImageState THistorical v s = commit s (s\<lparr>historicalImage := v\<rparr>)"

text \<open>
  A file as \<^verbatim>\<open>processFile\<close> sees it: its MIME type, and the base64 payload that
  \<^verbatim>\<open>readAsDataURL\<close> delivers after the comma of the data URL.
\<close>

record File =
  file_type :: string
  file_data :: string

definition processFile :: "File \<Rightarrow> ImageType \<Rightarrow> analyzer_state \<Rightarrow> analyzer_state" where
  "processFile file ty s =
     (if take 6 (file_type file) \<noteq> ''image/''
      then s\<lparr>alertLog := alertLog s @ [''Please upload a valid image file.'']\<rparr>
      else setImageState ty (Some (file_data file)) s)"

text \<open>The three tab buttons of lines 526 to 547; only the third has a \<^verbatim>\<open>disabled\<close> attribute.\<close>

fun tabDisabled :: "View \<Rightarrow> analyzer_state \<Rightarrow> bool" where
  "tabDisabled VCompare s = (\<not> truthy (historicalImage s) \<or> \<not> truthy (spectrumImage s))"
| "tabDisabled v s = False"

definition clickTab :: "View \<Rightarrow> analyzer_state \<Rightarrow> analyzer_state" where
  "clickTab v s = (if tabDisabled v s then s else s\<lparr>activeView := v\<rparr>)"

text \<open>The view that the priority rule names for the images of a state.\<close>

definition priorityView :: "analyzer_state \<Rightarrow> View option" where
  "priorityView s =
     (if truthy (historicalImage s) \<and> truthy (spectrumImage s) then Some VCompare
      else if truthy (spectrumImage s) then Some VSpectrum
      else if truthy (waveformImage s) then Some VWaveform
      else None)"

subsection \<open>Running an analysis\<close>

text \<open>
  \<^verbatim>\<open>analyzeVibrationData\<close> lives in \<^verbatim>\<open>services/geminiService\<close>, outside the
  sources at hand; \<open>runAnalysis\<close> takes it as the parameter \<open>remote\<close>, which either
  throws (\<open>Inl\<close>) or returns an analysis (\<open>Inr\<close>). The handler is modelled from its
  call to its last state update; the request it makes is appended to \<open>requests\<close>.
\<close>

definition mkRequest :: "analyzer_state \<Rightarrow> AnalysisRequest" where
  "mkRequest s =
     \<lparr> req_waveform = waveformImage s, req_spectrum = spectrumImage s,
       req_bearingParams = bearingParams s, req_equipment = equipmentName s,
       req_bearing = bearingId s, req_direction = direction s \<rparr>"

definition runAnalysis ::
  "(AnalysisRequest \<Rightarrow> string + AnalysisResult) \<Rightarrow> analyzer_state \<Rightarrow> analyzer_state" where
  "runAnalysis remote s =
     (if \<not> truthy (waveformImage s) \<and> \<not> truthy (spectrumImage s)
      then s\<lparr>alertLog := alertLog s @ [''Please upload at least one image (Waveform or Spectrum).'']\<rparr>
      else
        let s1 = s\<lparr>analyzing := True\<rparr>;
            s2 = s1\<lparr>feedbackGiven := None\<rparr>;
            s3 = s2\<lparr>requests := requests s2 @ [mkRequest s2]\<rparr>;
            s4 = (case remote (mkRequest s2) of
                    Inr analysis \<Rightarrow> s3\<lparr>result := Some analysis\<rparr>
                  | Inl err \<Rightarrow> s3\<lparr>alertLog := alertLog s3 @ [''Analysis failed.'']\<rparr>)
        in s4\<lparr>analyzing := False\<rparr>)"

subsection \<open>Feedback\<close>

definition FEEDBACK_KEY :: string where
  "FEEDBACK_KEY = ''gemini_feedback_history''"

text \<open>\<^verbatim>\<open>localStorage.getItem(key) || '[]'\<close>: a missing key and an empty text both give \<^verbatim>\<open>'[]'\<close>.\<close>

definition getItemOrEmptyArray :: "(string \<rightharpoonup> stored_text) \<Rightarrow> string \<Rightarrow> stored_text" where
  "getItemOrEmptyArray ls k =
     (case ls k of
        None \<Rightarrow> Stringified (JArr [])
      | Some (Unparsable t) \<Rightarrow> (if t = [] then Stringified (JArr []) else Unparsable t)
      | Some (Stringified j) \<Rightarrow> Stringified j)"

text \<open>
  The record that is pushed. \<^verbatim>\<open>result?.severity\<close> is \<^verbatim>\<open>undefined\<close> without a
  result, and \<^verbatim>\<open>JSON.stringify\<close> leaves such a key out.
\<close>

definition historyItem :: "string \<Rightarrow> AnalysisResult option \<Rightarrow> bool \<Rightarrow> json" where
  "historyItem now res isHelpful =
     JObj ([(''timestamp'', JStr now)]
           @ (case res of None \<Rightarrow> [] | Some r \<Rightarrow> [(''severity'', JStr (Severity_value (severity r)))])
           @ [(''helpful'', JBool isHelpful)])"

text \<open>
  \<open>handleFeedback now isHelpful\<close>, with \<open>now\<close> the text of
  \<^verbatim>\<open>new Date().toISOString()\<close>. An exception leaves the state as it is where it is
  thrown, so the result is the exception, if any, and the state.
\<close>

definition handleFeedback ::
  "string \<Rightarrow> bool \<Rightarrow> analyzer_state \<Rightarrow> js_error option \<times> analyzer_state" where
  "handleFeedback now isHelpful s =
     (let s1 = s\<lparr>feedbackGiven := Some (if isHelpful then Up else Down)\<rparr>;
          item = historyItem now (result s) isHelpful
      in case JSON_parse (getItemOrEmptyArray (localStorage s1) FEEDBACK_KEY) of
           Inl e \<Rightarrow> (Some e, s1)
         | Inr (JArr existingHistory) \<Rightarrow>
             (None, s1\<lparr>localStorage :=
                (localStorage s1)(FEEDBACK_KEY \<mapsto> JSON_stringify (JArr (existingHistory @ [item])))\<rparr>)
         | Inr other \<Rightarrow> (Some TypeError, s1))"

text \<open>
  The shape of the records that \<open>handleFeedback\<close> writes: a timestamp, a severity
  unless there was no result, and the \<open>helpful\<close> flag.
\<close>

fun feedbackRecord :: "json \<Rightarrow> bool" where
  "feedbackRecord (JObj [(k1, JStr t), (k2, JStr v), (k3, JBool h)]) =
     (k1 = ''timestamp'' \<and> k2 = ''severity'' \<and> k3 = ''helpful'')"
| "feedbackRecord (JObj [(k1, JStr t), (k3, JBool h)]) =
     (k1 = ''timestamp'' \<and> k3 = ''helpful'')"
| "feedbackRecord j = False"

text \<open>The feedback log as a list of records, when the stored text is one.\<close>

definition feedbackLog :: "analyzer_state \<Rightarrow> json list option" where
  "feedbackLog s =
     (case JSON_parse (getItemOrEmptyArray (localStorage s) FEEDBACK_KEY) of
        Inr (JArr xs) \<Rightarrow> Some xs
      | _ \<Rightarrow> None)"

section \<open>LiveMaintenance: the live audio session\<close>

text \<open>
  The model follows \<^verbatim>\<open>src/LiveMaintenance.tsx\<close>. The component keeps references
  to browser objects that outlive the references themselves (a node stays in the audio
  graph after \<^verbatim>\<open>processorRef\<close> points to a newer one), so the browser objects are
  kept in tables and a reference is an index into a table, or \<open>None\<close> for
  \<^verbatim>\<open>null\<close>. A callback closure is represented by the session whose
  \<^verbatim>\<open>connect\<close> call created it.
\<close>

datatype TrackState = TrackLive | TrackEnded

record AudioContext =
  sampleRate :: nat
  closed :: bool

datatype NodeKind = GainNode | MediaStreamSource | Analyser | ScriptProcessor

datatype Target = Destination | Node nat

record AudioNode =
  kind :: NodeKind
  node_context :: nat
  node_owner :: nat
  connectedTo :: "Target list"

text \<open>
  One call of \<^verbatim>\<open>client.connect\<close>: the \<^verbatim>\<open>stream\<close> and the
  \<^verbatim>\<open>outputNode\<close> its callbacks close over, and whether \<^verbatim>\<open>close\<close> has been
  requested on the session.
\<close>

record RemoteSession =
  ses_stream :: nat
  ses_outputNode :: nat
  closeRequested :: bool

text \<open>
  A server message as \<open>onmessage\<close> reads it. \<open>inlineData\<close> is \<open>None\<close> when
  \<^verbatim>\<open>serverContent?.modelTurn?.parts?.[0]?.inlineData\<close> is missing; otherwise it tells
  what \<^verbatim>\<open>decodeAudioData\<close> (of \<^verbatim>\<open>utils/audioUtils\<close>, not among the sources)
  makes of the payload: a buffer of some duration, or an exception.
\<close>

datatype Decoded = Buffer number | DecodeFails

record ServerMessage =
  inlineData :: "Decoded option"
  interrupted :: bool

record live_state =
  connected :: bool
  isTalking :: bool
  inputContextRef :: "nat option"
  outputContextRef :: "nat option"
  streamRef :: "nat option"
  processorRef :: "nat option"
  sourceRef :: "nat option"
  nextStartTimeRef :: number
  sessionRef :: "nat option"
  analyserRef :: "nat option"
  canvasRef :: bool
  animationFrameRef :: "nat option"
  contexts :: "AudioContext list"
  streams :: "TrackState list list"
  nodes :: "AudioNode list"
  sessions :: "RemoteSession list"
  pendingFrames :: "nat list"
  nextFrameId :: nat
  liveAlerts :: "string list"
  sent :: "nat list"
  scheduled :: "(number \<times> number) list"
  decoding :: "(Decoded \<times> ServerMessage) list"

text \<open>
  \<open>canvasRef\<close> tells whether the canvas is mounted. \<open>pendingFrames\<close> are the
  animation-frame requests not yet run or cancelled; the browser numbers them from 1.
  \<open>sent\<close> lists, in order, the session each captured frame was sent to, and
  \<open>scheduled\<close> the start time and duration of each \<^verbatim>\<open>source.start\<close>.
  \<open>decoding\<close> holds the calls of \<open>onmessage\<close> that are suspended at
  \<^verbatim>\<open>await decodeAudioData\<close> (line 131), each with the outcome of its decoding and
  the message it handles.
\<close>

definition live_init :: live_state where
  "live_init =
     \<lparr> connected = False, isTalking = False,
       inputContextRef = None, outputContextRef = None, streamRef = None,
       processorRef = None, sourceRef = None, nextStartTimeRef = Finite 0, sessionRef = None,
       analyserRef = None, canvasRef = False, animationFrameRef = None,
       contexts = [], streams = [], nodes = [], sessions = [],
       pendingFrames = [], nextFrameId = 1, liveAlerts = [], sent = [], scheduled = [],
       decoding = [] \<rparr>"

subsection \<open>Operations of the browser objects\<close>

text \<open>Change the entry of a table that a reference points to; \<^verbatim>\<open>null\<close> changes nothing.\<close>

definition modify :: "nat \<Rightarrow> ('a \<Rightarrow> 'a) \<Rightarrow> 'a list \<Rightarrow> 'a list" where
  "modify i f xs = (if i < length xs then xs[i := f (xs ! i)] else xs)"

fun modifyRef :: "nat option \<Rightarrow> ('a \<Rightarrow> 'a) \<Rightarrow> 'a list \<Rightarrow> 'a list" where
  "modifyRef None f xs = xs"
| "modifyRef (Some i) f xs = modify i f xs"

definition stopTracks :: "TrackState list \<Rightarrow> TrackState list" where
  "stopTracks ts = map (\<lambda>t. TrackEnded) ts"

definition disconnect :: "AudioNode \<Rightarrow> AudioNode" where
  "disconnect n = n\<lparr>connectedTo := []\<rparr>"

definition closeContext :: "AudioContext \<Rightarrow> AudioContext" where
  "closeContext c = c\<lparr>closed := True\<rparr>"

definition closeSession :: "RemoteSession \<Rightarrow> RemoteSession" where
  "closeSession r = r\<lparr>closeRequested := True\<rparr>"

definition requestAnimationFrame :: "live_state \<Rightarrow> live_state" where
  "requestAnimationFrame s =
     s\<lparr>animationFrameRef := Some (nextFrameId s),
       pendingFrames := pendingFrames s @ [nextFrameId s],
       nextFrameId := Suc (nextFrameId s)\<rparr>"

text \<open>
  \<^verbatim>\<open>if (animationFrameRef.current) cancelAnimationFrame(animationFrameRef.current)\<close>:
  the test is JavaScript truthiness of a number, false for \<^verbatim>\<open>null\<close> and for 0.
\<close>

definition cancelIfSet :: "live_state \<Rightarrow> live_state" where
  "cancelIfSet s =
     (case animationFrameRef s of
        None \<Rightarrow> s
      | Some f \<Rightarrow> if f = 0 then s else s\<lparr>pendingFrames := removeAll f (pendingFrames s)\<rparr>)"

text \<open>The pending frames that are left when the frame of a reference is cancelled.\<close>

definition cancelled :: "nat option \<Rightarrow> nat list \<Rightarrow> nat list" where
  "cancelled r fs = (case r of None \<Rightarrow> fs | Some f \<Rightarrow> if f = 0 then fs else removeAll f fs)"

subsection \<open>The visualizer\<close>

definition render :: "live_state \<Rightarrow> live_state" where
  "render s = (if analyserRef s = None then s else requestAnimationFrame s)"

definition drawVisualizer :: "live_state \<Rightarrow> live_state" where
  "drawVisualizer s = (if \<not> canvasRef s \<or> analyserRef s = None then s else render s)"

subsection \<open>Starting a session\<close>

text \<open>
  \<open>startSession clientOk mic\<close>: \<open>clientOk\<close> tells whether \<^verbatim>\<open>getLiveClient\<close>
  (of \<^verbatim>\<open>services/geminiService\<close>, not among the sources) returns, and \<open>mic\<close> is
  what \<^verbatim>\<open>getUserMedia\<close> answers: a stream of so many live tracks, or a rejection.
  Both failures end in the same \<^verbatim>\<open>catch\<close>.
\<close>

datatype MicOutcome = Granted nat | Denied

definition startFailed :: "live_state \<Rightarrow> live_state" where
  "startFailed s = s\<lparr>liveAlerts := liveAlerts s @ [''Microphone access required for Live Monitor.'']\<rparr>"

definition startSession :: "bool \<Rightarrow> MicOutcome \<Rightarrow> live_state \<Rightarrow> live_state" where
  "startSession clientOk mic s =
     (if \<not> clientOk then startFailed s
      else
        let ic = length (contexts s);
            s1 = s\<lparr>contexts := contexts s @ [\<lparr>sampleRate = 16000, closed = False\<rparr>],
                   inputContextRef := Some ic\<rparr>;
            oc = length (contexts s1);
            s2 = s1\<lparr>contexts := contexts s1 @ [\<lparr>sampleRate = 24000, closed = False\<rparr>],
                    outputContextRef := Some oc\<rparr>
        in case mic of
             Denied \<Rightarrow> startFailed s2
           | Granted n \<Rightarrow>
               let st = length (streams s2);
                   s3 = s2\<lparr>streams := streams s2 @ [replicate n TrackLive], streamRef := Some st\<rparr>;
                   g = length (nodes s3);
                   k = length (sessions s3);
                   s4 = s3\<lparr>nodes := nodes s3 @
                           [\<lparr>kind = GainNode, node_context = oc, node_owner = k,
                             connectedTo = [Destination]\<rparr>]\<rparr>
               in s4\<lparr>sessions := sessions s4 @
                        [\<lparr>ses_stream = st, ses_outputNode = g, closeRequested = False\<rparr>],
                      sessionRef := Some k\<rparr>)"

subsection \<open>The callbacks of a session\<close>

text \<open>
  \<open>onopen k\<close> is the \<^verbatim>\<open>onopen\<close> callback of session \<open>k\<close>. It is the only place
  where a stream source, an analyser or a script processor is created.
\<close>

definition onopen :: "nat \<Rightarrow> live_state \<Rightarrow> live_state" where
  "onopen k s =
     (let s1 = s\<lparr>connected := True\<rparr>
      in case inputContextRef s1 of
           None \<Rightarrow> s1
         | Some ic \<Rightarrow>
             let src = length (nodes s1);
                 an = Suc src;
                 pr = Suc an;
                 s2 = s1\<lparr>nodes := nodes s1 @
                         [\<lparr>kind = MediaStreamSource, node_context = ic, node_owner = k,
                           connectedTo = [Node an]\<rparr>,
                          \<lparr>kind = Analyser, node_context = ic, node_owner = k,
                           connectedTo = [Node pr]\<rparr>,
                          \<lparr>kind = ScriptProcessor, node_context = ic, node_owner = k,
                           connectedTo = [Destination]\<rparr>],
                       analyserRef := Some an, sourceRef := Some src, processorRef := Some pr\<rparr>
             in drawVisualizer s2)"

text \<open>
  \<open>onaudioprocess p\<close> is the handler that \<open>onopen\<close> installs on processor \<open>p\<close>:
  it sends the frame to the session whose \<open>onopen\<close> created the processor.
\<close>

definition onaudioprocess :: "nat \<Rightarrow> live_state \<Rightarrow> live_state" where
  "onaudioprocess p s = s\<lparr>sent := sent s @ [node_owner (nodes s ! p)]\<rparr>"

text \<open>Lines 134 to 141, with \<open>now\<close> the value of \<^verbatim>\<open>ctx.currentTime\<close>.\<close>

definition scheduleBuffer :: "number \<Rightarrow> number \<Rightarrow> live_state \<Rightarrow> live_state" where
  "scheduleBuffer now duration s =
     (let s1 = s\<lparr>nextStartTimeRef := fmax (nextStartTimeRef s) now\<rparr>;
          s2 = s1\<lparr>scheduled := scheduled s1 @ [(nextStartTimeRef s1, duration)]\<rparr>
      in s2\<lparr>nextStartTimeRef := fadd (nextStartTimeRef s2) duration\<rparr>)"

text \<open>Lines 151 to 154.\<close>

definition handleInterrupted :: "ServerMessage \<Rightarrow> live_state \<Rightarrow> live_state" where
  "handleInterrupted msg s =
     (if interrupted msg then s\<lparr>isTalking := False, nextStartTimeRef := Finite 0\<rparr> else s)"

text \<open>
  \<open>onmessage\<close> is an asynchronous function. \<open>onmessage_begin msg\<close> is what a call
  does before it returns to the event loop: all of the handler when the message has no
  audio or there is no output context, and otherwise lines 122 to 131, up to the
  \<^verbatim>\<open>await\<close>, where the call is suspended.
\<close>

definition onmessage_begin :: "ServerMessage \<Rightarrow> live_state \<Rightarrow> live_state" where
  "onmessage_begin msg s =
     (case inlineData msg of
        None \<Rightarrow> handleInterrupted msg s
      | Some payload \<Rightarrow>
          let s1 = s\<lparr>isTalking := True\<rparr>
          in if outputContextRef s1 = None then handleInterrupted msg s1
             else s1\<lparr>decoding := decoding s1 @ [(payload, msg)]\<rparr>)"

text \<open>
  \<open>onmessage_resume now payload msg\<close> is the rest of a suspended call, lines 131 to
  154, run when the decoding is done, with \<open>now\<close> the output clock at that time. An
  exception of the decoder ends the call there.
\<close>

definition onmessage_resume ::
  "number \<Rightarrow> Decoded \<Rightarrow> ServerMessage \<Rightarrow> live_state \<Rightarrow> js_error option \<times> live_state" where
  "onmessage_resume now payload msg s =
     (case payload of
        DecodeFails \<Rightarrow> (Some EncodingError, s)
      | Buffer duration \<Rightarrow> (None, handleInterrupted msg (scheduleBuffer now duration s)))"

text \<open>The \<^verbatim>\<open>onended\<close> callback of a scheduled buffer, at output-clock time \<open>now\<close>.\<close>

definition onended :: "number \<Rightarrow> live_state \<Rightarrow> live_state" where
  "onended now s =
     (if fle (fsub (nextStartTimeRef s) (lit (1 / 10))) now then s\<lparr>isTalking := False\<rparr> else s)"

definition onclose :: "live_state \<Rightarrow> live_state" where
  "onclose s = cancelIfSet (s\<lparr>connected := False\<rparr>)"

definition onerror :: "live_state \<Rightarrow> live_state" where
  "onerror s = cancelIfSet (s\<lparr>connected := False\<rparr>)"

subsection \<open>Stopping a session\<close>

definition stopSession :: "live_state \<Rightarrow> live_state" where
  "stopSession s =
     (let s1 = s\<lparr>streams := modifyRef (streamRef s) stopTracks (streams s)\<rparr>;
          s2 = s1\<lparr>nodes := modifyRef (processorRef s1) disconnect (nodes s1)\<rparr>;
          s3 = s2\<lparr>nodes := modifyRef (sourceRef s2) disconnect (nodes s2)\<rparr>;
          s4 = s3\<lparr>nodes := modifyRef (analyserRef s3) disconnect (nodes s3)\<rparr>;
          s5 = s4\<lparr>contexts := modifyRef (inputContextRef s4) closeContext (contexts s4)\<rparr>;
          s6 = s5\<lparr>contexts := modifyRef (outputContextRef s5) closeContext (contexts s5)\<rparr>;
          s7 = cancelIfSet s6;
          s8 = s7\<lparr>sessions := modifyRef (sessionRef s7) closeSession (sessions s7)\<rparr>
      in s8\<lparr>connected := False, isTalking := False\<rparr>)"

subsection \<open>Executions\<close>

text \<open>
  What can happen to a mounted component: a press of the start or the stop action, a
  callback of session \<open>k\<close>, the end of a decoding, an audio block at processor \<open>p\<close>,
  an animation frame, the end of a scheduled buffer, and React mounting or unmounting
  the canvas. A callback of an object that does not exist cannot run, and neither can
  the handler of a processor that is disconnected or whose context is closed; such an
  event leaves the state as it is. \<open>Decoded i now\<close> resumes the \<open>i\<close>-th suspended call
  of \<open>onmessage\<close>, so decodings may end in any order and after any delay.
  \<open>startSession\<close> is run from call to end as one event; what its \<^verbatim>\<open>await\<close> yields
  is a parameter of the event.
\<close>

datatype LiveEvent =
    Start bool MicOutcome
  | Stop
  | OnOpen nat
  | OnMessage nat ServerMessage
  | Decoded nat number
  | OnEnded number
  | OnClose nat
  | OnError nat
  | AudioProcess nat
  | AnimationFrame nat
  | Canvas bool

definition processing :: "nat \<Rightarrow> live_state \<Rightarrow> bool" where
  "processing p s \<longleftrightarrow>
     p < length (nodes s) \<and> kind (nodes s ! p) = ScriptProcessor
     \<and> connectedTo (nodes s ! p) \<noteq> []
     \<and> node_context (nodes s ! p) < length (contexts s)
     \<and> \<not> closed (contexts s ! node_context (nodes s ! p))"

definition resume :: "nat \<Rightarrow> number \<Rightarrow> live_state \<Rightarrow> live_state" where
  "resume i now s =
     (let (payload, msg) = decoding s ! i;
          s1 = s\<lparr>decoding := take i (decoding s) @ drop (Suc i) (decoding s)\<rparr>
      in snd (onmessage_resume now payload msg s1))"

fun live_step :: "live_state \<Rightarrow> LiveEvent \<Rightarrow> live_state" where
  "live_step s (Start clientOk mic) = startSession clientOk mic s"
| "live_step s Stop = stopSession s"
| "live_step s (OnOpen k) = (if k < length (sessions s) then onopen k s else s)"
| "live_step s (OnMessage k msg) = (if k < length (sessions s) then onmessage_begin msg s else s)"
| "live_step s (Decoded i now) = (if i < length (decoding s) then resume i now s else s)"
| "live_step s (OnEnded now) = (if scheduled s = [] then s else onended now s)"
| "live_step s (OnClose k) = (if k < length (sessions s) then onclose s else s)"
| "live_step s (OnError k) = (if k < length (sessions s) then onerror s else s)"
| "live_step s (AudioProcess p) = (if processing p s then onaudioprocess p s else s)"
| "live_step s (AnimationFrame f) =
     (if f \<in> set (pendingFrames s)
      then render (s\<lparr>pendingFrames := removeAll f (pendingFrames s)\<rparr>) else s)"
| "live_step s (Canvas mounted) = s\<lparr>canvasRef := mounted\<rparr>"

definition live_run :: "LiveEvent list \<Rightarrow> live_state \<Rightarrow> live_state" where
  "live_run es s = foldl live_step s es"

text \<open>An audio message whose payload decodes to a buffer of duration \<open>d\<close>, not interrupted.\<close>

definition chunk :: "number \<Rightarrow> ServerMessage" where
  "chunk d = \<lparr> inlineData = Some (Buffer d), interrupted = False \<rparr>"





section \<open>Sample inputs\<close>

text \<open>A remote service that is down, an analysis, an image file and an empty one, an
  analyzer that shows that analysis with a thumbs-up already given, and one that shows
  it with no feedback given yet, over a log of one earlier record.\<close>

definition failingRemote :: "AnalysisRequest \<Rightarrow> string + AnalysisResult" where
  "failingRemote req = Inl ''503''"

definition sampleResult :: AnalysisResult where
  "sampleResult =
     \<lparr> faults = [''Imbalance''], severity = WARNING,
       recommendations = [''Balance the rotor''], rawAnalysis = ''### Summary'' \<rparr>"

definition pngFile :: File where
  "pngFile = \<lparr> file_type = ''image/png'', file_data = ''iVBORw0KGgo='' \<rparr>"

definition emptyPng :: File where
  "emptyPng = \<lparr> file_type = ''image/png'', file_data = [] \<rparr>"

definition ratedState :: analyzer_state where
  "ratedState =
     (analyzer_init Map.empty)
       \<lparr> result := Some sampleResult, spectrumImage := Some ''AAAA'', feedbackGiven := Some Up \<rparr>"

definition earlierRecord :: json where
  "earlierRecord =
     JObj [(''timestamp'', JStr ''2024-12-31T08:00:00.000Z''),
           (''severity'', JStr ''Alarm''), (''helpful'', JBool False)]"

definition unratedState :: analyzer_state where
  "unratedState =
     (analyzer_init [FEEDBACK_KEY \<mapsto> Stringified (JArr [earlierRecord])])
       \<lparr> result := Some sampleResult, spectrumImage := Some ''AAAA'' \<rparr>"

text \<open>An analyzer with a spectrum image, in whose waveform slot an empty image file has
  been dropped, and whose waveform tab has been pressed after that.\<close>

definition emptySlotState :: analyzer_state where
  "emptySlotState =
     clickTab VWaveform
       (processFile emptyPng TWaveform (processFile pngFile TSpectrum (analyzer_init Map.empty)))"

text \<open>A session that has been started with one microphone track and has opened, the
  same with the canvas mounted, so that the visualizer runs, and the server message that
  only says "interrupted".\<close>

definition openSession :: live_state where
  "openSession = live_run [Start True (Granted 1), OnOpen 0] live_init"

definition drawingSession :: live_state where
  "drawingSession = live_run [Start True (Granted 1), Canvas True, OnOpen 0] live_init"

definition interruptedEvent :: ServerMessage where
  "interruptedEvent = \<lparr> inlineData = None, interrupted = True \<rparr>"

text \<open>The start action pressed twice before any session has opened; and the same after
  both sessions have opened, the canvas being mounted in between.\<close>

definition doubleStart :: live_state where
  "doubleStart = live_run [Start True (Granted 1), Start True (Granted 1)] live_init"

definition doubleOpen :: live_state where
  "doubleOpen =
     live_run [Start True (Granted 1), Start True (Granted 1), OnOpen 0, Canvas True, OnOpen 1]
       live_init"

definition tripleOpen :: live_state where
  "tripleOpen =
     live_run [Start True (Granted 1), Start True (Granted 1), Start True (Granted 1),
               OnOpen 0, Canvas True, OnOpen 1, OnOpen 2]
       live_init"




definition raceRun :: "LiveEvent list" where
  "raceRun =
     [OnMessage 0 (chunk (Finite 5)), OnMessage 0 interruptedEvent, Decoded 0 (Finite (3 / 2)),
      OnMessage 0 (chunk (Finite 1)), Decoded 0 (Finite 2)]"

definition garbledRun :: "LiveEvent list" where
  "garbledRun =
     [OnMessage 0 (chunk (Finite 5)), Decoded 0 (Finite 0),
      OnMessage 0 \<lparr> inlineData = Some DecodeFails, interrupted = True \<rparr>, Decoded 0 (Finite 1)]"

section \<open>Properties of the numbers\<close>

lemma pow2_powr: "pow2 e = 2 powr (of_int e)"
  by (simp add: pow2_def powr_real_of_int field_simps)

lemma pow2_pos: "0 < pow2 e"
  by (simp add: pow2_powr)



lemma pow2_less: "a < b \<Longrightarrow> pow2 a < pow2 b"
  by (simp add: pow2_powr)

lemma pow2_nat: "0 \<le> e \<Longrightarrow> pow2 e = of_int (2 ^ nat e)"
  by (simp add: pow2_def)

lemma ilog2_bounds:
  assumes "0 < x"
  shows "pow2 (ilog2 x) \<le> x \<and> x < pow2 (ilog2 x + 1)"
proof (cases "1 \<le> x")
  case True
  define n where "n = \<lfloor>x\<rfloor>"
  define b where "b = bitlen n"
  have n: "0 < n" using True by (simp add: n_def)
  from bitlen_bounds [OF n] have lo: "2 ^ nat (b - 1) \<le> n" and hi: "n < 2 ^ nat b"
    by (simp_all add: b_def)
  have b: "1 \<le> b" using n by (simp add: b_def bitlen_alt_def)
  have rlo: "(2::real) ^ nat (b - 1) \<le> real_of_int n"
    using lo of_int_le_iff [of "2 ^ nat (b - 1)" n, where ?'a = real] by simp
  have "n + 1 \<le> 2 ^ nat b" using hi by simp
  then have rhi: "real_of_int n + 1 \<le> (2::real) ^ nat b"
    using of_int_le_iff [of "n + 1" "2 ^ nat b", where ?'a = real] by simp
  have nx: "real_of_int n \<le> x"
    unfolding n_def by linarith
  have xn: "x < real_of_int n + 1"
    unfolding n_def by linarith
  have "(2::real) ^ nat (b - 1) \<le> x"
    using rlo nx by linarith
  then have 1: "pow2 (b - 1) \<le> x"
    using b by (simp add: pow2_def)
  have "x < (2::real) ^ nat b"
    using rhi xn by linarith
  then have 2: "x < pow2 b"
    using b by (simp add: pow2_def)
  from 1 2 True show ?thesis by (simp add: ilog2_def n_def b_def)
next
  case False
  then have x1: "x < 1" by simp
  define y where "y = 1 / x"
  define m where "m = \<lceil>y\<rceil> - 1"
  define b where "b = bitlen m"
  have y1: "1 < y" using assms x1 by (simp add: y_def)
  have my: "real_of_int m < y"
    unfolding m_def by linarith
  have ym: "y \<le> real_of_int m + 1"
    unfolding m_def by linarith
  have m: "0 < m" using y1 ym by linarith
  from bitlen_bounds [OF m] have lo: "2 ^ nat (b - 1) \<le> m" and hi: "m < 2 ^ nat b"
    by (simp_all add: b_def)
  have b: "1 \<le> b" using m by (simp add: b_def bitlen_alt_def)
  have rlo: "(2::real) ^ nat (b - 1) \<le> real_of_int m"
    using lo of_int_le_iff [of "2 ^ nat (b - 1)" m, where ?'a = real] by simp
  have "m + 1 \<le> 2 ^ nat b" using hi by simp
  then have rhi: "real_of_int m + 1 \<le> (2::real) ^ nat b"
    using of_int_le_iff [of "m + 1" "2 ^ nat b", where ?'a = real] by simp
  have ylo: "(2::real) ^ nat (b - 1) < y" using rlo my by linarith
  have yhi: "y \<le> (2::real) ^ nat b" using rhi ym by linarith
  have xy: "x = 1 / y" using assms by (simp add: y_def)
  have 1: "pow2 (- b) \<le> x"
  proof -
    have "1 / 2 ^ nat b \<le> 1 / y"
      using yhi y1 by (intro divide_left_mono) simp_all
    then show ?thesis using b by (simp add: pow2_def xy)
  qed
  have 2: "x < pow2 (- b + 1)"
  proof -
    have "1 / y < 1 / 2 ^ nat (b - 1)"
      using ylo y1 by (intro divide_strict_left_mono) simp_all
    moreover have "pow2 (- b + 1) = 1 / 2 ^ nat (b - 1)"
      using b by (cases "b = 1") (simp_all add: pow2_def)
    ultimately show ?thesis by (simp add: xy)
  qed
  from 1 2 False show ?thesis by (simp add: ilog2_def y_def m_def b_def)
qed

lemma ilog2_unique:
  assumes "pow2 k \<le> x" and "x < pow2 (k + 1)"
  shows "ilog2 x = k"
proof -
  have x: "0 < x" using assms(1) pow2_pos [of k] by linarith
  from ilog2_bounds [OF x] have a: "pow2 (ilog2 x) \<le> x" and b: "x < pow2 (ilog2 x + 1)"
    by simp_all
  have "pow2 k < pow2 (ilog2 x + 1)" using assms(1) b by linarith
  then have 1: "k < ilog2 x + 1" by (simp add: pow2_powr)
  have "pow2 (ilog2 x) < pow2 (k + 1)" using assms(2) a by linarith
  then have 2: "ilog2 x < k + 1" by (simp add: pow2_powr)
  from 1 2 show ?thesis by simp
qed


















text \<open>Evaluation of the rounding at the numbers of the sample executions.\<close>

lemmas round64_eval = round64_def ilog2_def pow2_def roundTiesToEven_def compute_bitlen Let_def

lemma lit_tenth: "lit (1 / 10) = Finite (3602879701896397 / 36028797018963968)"
  by (simp add: lit_def overflow_def round64_eval)

lemma lit_half: "lit (1 / 2) = Finite (1 / 2)"
  by (simp add: lit_def overflow_def round64_eval)

lemma lit_three_tenths: "lit (3 / 10) = Finite (5404319552844595 / 18014398509481984)"
  by (simp add: lit_def overflow_def round64_eval)


lemma tenth_half_three_tenths:
  "fadd (fadd (lit (1 / 10)) (lit (1 / 2))) (lit (3 / 10)) = Finite (8106479329266892 / 9007199254740992)"
  by (simp add: lit_tenth lit_half lit_three_tenths overflow_def round64_eval)


section \<open>Properties of the VibrationAnalyzer\<close>

lemma written_feedbackRecord: "feedbackRecord j \<Longrightarrow> written j = j"
  by (induction j rule: feedbackRecord.induct) simp_all

lemma written_records: "list_all feedbackRecord xs \<Longrightarrow> map written xs = xs"
  by (induction xs) (simp_all add: written_feedbackRecord)

lemma feedbackLog_parse:
  "feedbackLog s = Some xs \<Longrightarrow>
     JSON_parse (getItemOrEmptyArray (localStorage s) FEEDBACK_KEY) = Inr (JArr xs)"
  by (simp add: feedbackLog_def split: sum.splits json.splits)

text \<open>
  Claim C7, as amended. When at least one of the two images is there and the remote
  analysis throws, \<open>runAnalysis\<close> shows the alert "Analysis failed." and leaves the
  analysis result, the images, the metadata and the local storage as they were. Two
  cells are written: \<open>analyzing\<close> ends false, and \<open>feedbackGiven\<close> is reset to
  \<^verbatim>\<open>null\<close>, since line 164 runs before the request is made.
\<close>

theorem runAnalysis_failure:
  assumes "truthy (waveformImage s) \<or> truthy (spectrumImage s)"
    and "remote (mkRequest s) = Inl err"
  shows "runAnalysis remote s =
           s\<lparr>analyzing := False, feedbackGiven := None,
             alertLog := alertLog s @ [''Analysis failed.''],
             requests := requests s @ [mkRequest s]\<rparr>"
  using assms by (auto simp add: runAnalysis_def mkRequest_def Let_def)

theorem runAnalysis_failure_witness:
  "truthy (spectrumImage ratedState)
   \<and> result (runAnalysis failingRemote ratedState) = Some sampleResult
   \<and> alertLog (runAnalysis failingRemote ratedState) = [''Analysis failed.'']
   \<and> analyzing (runAnalysis failingRemote ratedState) = False
   \<and> feedbackGiven (runAnalysis failingRemote ratedState) = None"
proof -
  have a: "truthy (waveformImage ratedState) \<or> truthy (spectrumImage ratedState)"
    by (simp add: ratedState_def analyzer_init_def)
  have b: "failingRemote (mkRequest ratedState) = Inl ''503''"
    by (simp add: failingRemote_def)
  show ?thesis
    using runAnalysis_failure [of ratedState failingRemote "''503''"] a b
    by (simp add: ratedState_def analyzer_init_def)
qed

text \<open>
  Claim C7 as it is written says that all local state is as before the action, the
  recorded feedback state included. It is not: an analyzer whose feedback marker is
  "up" has lost the marker after a failed analysis.
\<close>

theorem runAnalysis_failure_counterexample:
  "failingRemote (mkRequest ratedState) = Inl ''503''
   \<and> feedbackGiven ratedState = Some Up
   \<and> feedbackGiven (runAnalysis failingRemote ratedState) = None
   \<and> runAnalysis failingRemote ratedState
       \<noteq> ratedState\<lparr>alertLog := alertLog ratedState @ [''Analysis failed.''],
                      requests := requests ratedState @ [mkRequest ratedState]\<rparr>"
proof -
  have "feedbackGiven (runAnalysis failingRemote ratedState) = None"
    by (simp add: runAnalysis_def ratedState_def analyzer_init_def failingRemote_def)
  moreover have "feedbackGiven ratedState = Some Up"
    by (simp add: ratedState_def)
  moreover have "failingRemote (mkRequest ratedState) = Inl ''503''"
    by (simp add: failingRemote_def)
  ultimately show ?thesis
    by (auto dest: arg_cong [where f = feedbackGiven])
qed

text \<open>
  Claim C8. A feedback submission over a stored log \<open>xs\<close> of records that this
  handler has written (a missing key is the empty log) throws nothing and stores \<open>xs\<close>
  followed by exactly one new record, made of the timestamp, the severity of the
  analysis shown and the \<open>helpful\<close> flag; every other key of the local storage keeps its
  text.
\<close>

theorem handleFeedback_appends:
  assumes "feedbackLog s = Some xs" and "list_all feedbackRecord xs" and "result s = Some r"
  shows "\<exists>s'. handleFeedback now isHelpful s = (None, s')
           \<and> feedbackLog s' =
               Some (xs @ [JObj [(''timestamp'', JStr now),
                                 (''severity'', JStr (Severity_value (severity r))),
                                 (''helpful'', JBool isHelpful)]])
           \<and> (\<forall>k. k \<noteq> FEEDBACK_KEY \<longrightarrow> localStorage s' k = localStorage s k)"
proof -
  have p: "JSON_parse (getItemOrEmptyArray (localStorage s) FEEDBACK_KEY) = Inr (JArr xs)"
    using assms(1) by (rule feedbackLog_parse)
  have w: "map written xs = xs"
    using assms(2) by (rule written_records)
  show ?thesis
    using p w assms(3)
    by (simp add: handleFeedback_def feedbackLog_def getItemOrEmptyArray_def historyItem_def
        JSON_stringify_def Let_def)
qed

theorem handleFeedback_appends_witness:
  "feedbackLog unratedState = Some [earlierRecord]
   \<and> feedbackGiven unratedState = None
   \<and> result unratedState = Some sampleResult
   \<and> (\<exists>s'. handleFeedback ''2025-01-01T00:00:00.000Z'' True unratedState = (None, s')
          \<and> feedbackLog s' =
               Some [earlierRecord,
                     JObj [(''timestamp'', JStr ''2025-01-01T00:00:00.000Z''),
                           (''severity'', JStr ''Warning''), (''helpful'', JBool True)]])"
proof -
  have a: "feedbackLog unratedState = Some [earlierRecord]"
    by (simp add: feedbackLog_def getItemOrEmptyArray_def unratedState_def analyzer_init_def)
  have b: "list_all feedbackRecord [earlierRecord]"
    by (simp add: earlierRecord_def)
  have c: "result unratedState = Some sampleResult" and d: "feedbackGiven unratedState = None"
    by (simp_all add: unratedState_def analyzer_init_def)
  show ?thesis
    using handleFeedback_appends [of unratedState "[earlierRecord]" sampleResult
        "''2025-01-01T00:00:00.000Z''" True] a b c d
    by (auto simp add: sampleResult_def)
qed

text \<open>
  Claim C9. When the waveform image and the spectrum image are both \<^verbatim>\<open>null\<close>,
  \<open>runAnalysis\<close> shows an alert and does nothing else: no request is made, and the
  result and the \<open>analyzing\<close> flag, like every other cell, are as before.
\<close>

theorem runAnalysis_no_images:
  assumes "waveformImage s = None" and "spectrumImage s = None"
  shows "runAnalysis remote s =
           s\<lparr>alertLog := alertLog s @ [''Please upload at least one image (Waveform or Spectrum).'']\<rparr>
         \<and> requests (runAnalysis remote s) = requests s
         \<and> result (runAnalysis remote s) = result s
         \<and> analyzing (runAnalysis remote s) = analyzing s"
  using assms by (simp add: runAnalysis_def)

theorem runAnalysis_no_images_witness:
  "waveformImage (analyzer_init Map.empty) = None
   \<and> spectrumImage (analyzer_init Map.empty) = None
   \<and> runAnalysis failingRemote (analyzer_init Map.empty) =
       (analyzer_init Map.empty)\<lparr>alertLog := [''Please upload at least one image (Waveform or Spectrum).'']\<rparr>
   \<and> requests (runAnalysis failingRemote (analyzer_init Map.empty)) = []"
  using runAnalysis_no_images [of "analyzer_init Map.empty" failingRemote]
  by (simp add: analyzer_init_def)

text \<open>
  Claim C10, as amended. An upload that puts an image file into a slot and changes the
  content of the slot ends with the view that the priority rule names: compare when the
  spectrum and the historical image are there, else spectrum when the spectrum is
  there, else waveform when the waveform is there; when the rule names no view, the
  view stays. A press on the compare tab
  selects the compare view exactly when the spectrum and the historical image are both
  there, and changes nothing otherwise.
\<close>

theorem autoSwitch_after_upload:
  assumes "take 6 (file_type file) = ''image/''"
    and "imageOf ty s \<noteq> Some (file_data file)"
  shows "imageOf ty (processFile file ty s) = Some (file_data file)
         \<and> activeView (processFile file ty s) =
             (case priorityView (processFile file ty s) of Some v \<Rightarrow> v | None \<Rightarrow> activeView s)
         \<and> clickTab VCompare s' =
             (if truthy (spectrumImage s') \<and> truthy (historicalImage s')
              then s'\<lparr>activeView := VCompare\<rparr> else s')"
  using assms
  by (cases ty) (auto simp add: processFile_def commit_def depsChanged_def autoSwitchView_def
      priorityView_def clickTab_def)

theorem autoSwitch_after_upload_witness:
  "take 6 (file_type pngFile) = ''image/''
   \<and> imageOf THistorical ratedState \<noteq> Some (file_data pngFile)
   \<and> activeView ratedState = VSpectrum
   \<and> activeView (processFile pngFile THistorical ratedState) = VCompare
   \<and> activeView (clickTab VCompare ratedState) = VSpectrum"
proof -
  have a: "take 6 (file_type pngFile) = ''image/''"
    by (simp add: pngFile_def)
  have b: "imageOf THistorical ratedState \<noteq> Some (file_data pngFile)"
    by (simp add: ratedState_def analyzer_init_def)
  have c: "priorityView (processFile pngFile THistorical ratedState) = Some VCompare"
    by (simp add: priorityView_def processFile_def commit_def depsChanged_def autoSwitchView_def
        pngFile_def ratedState_def analyzer_init_def)
  show ?thesis
    using autoSwitch_after_upload [of pngFile THistorical ratedState ratedState] a b c
    by (simp add: ratedState_def analyzer_init_def)
qed

text \<open>
  Claim C10 as it is written speaks of every upload. The effect runs only when one of
  the three images has changed, and the drop zone of a slot stays as long as the slot
  holds no image or an empty one: when an empty image file is dropped a second time,
  after the waveform tab has been pressed, the view stays on the waveform tab although
  the rule names the spectrum.
\<close>

theorem autoSwitch_after_upload_counterexample:
  "take 6 (file_type emptyPng) = ''image/''
   \<and> \<not> truthy (imageOf TWaveform emptySlotState)
   \<and> activeView (processFile emptyPng TWaveform emptySlotState) = VWaveform
   \<and> priorityView (processFile emptyPng TWaveform emptySlotState) = Some VSpectrum"
  by (simp add: emptySlotState_def emptyPng_def pngFile_def processFile_def commit_def
      depsChanged_def autoSwitchView_def priorityView_def clickTab_def analyzer_init_def)

section \<open>Properties of the live audio session\<close>

subsection \<open>Tables, and what each handler leaves alone\<close>

lemma length_modify: "length (modify i f xs) = length xs"
  by (simp add: modify_def)

lemma nth_modify:
  "k < length xs \<Longrightarrow> modify i f xs ! k = (if k = i then f (xs ! k) else xs ! k)"
  by (simp add: modify_def)

lemma length_modifyRef: "length (modifyRef r f xs) = length xs"
  by (cases r) (simp_all add: length_modify)

lemma nth_modifyRef:
  "k < length xs \<Longrightarrow> modifyRef r f xs ! k = (if r = Some k then f (xs ! k) else xs ! k)"
  by (cases r) (auto simp add: nth_modify)

lemma cancelIfSet_eq:
  "cancelIfSet s = s\<lparr>pendingFrames := cancelled (animationFrameRef s) (pendingFrames s)\<rparr>"
  by (simp add: cancelIfSet_def cancelled_def split: option.splits)

lemma stopSession_eq:
  "stopSession s =
     s\<lparr>connected := False, isTalking := False,
       streams := modifyRef (streamRef s) stopTracks (streams s),
       nodes := modifyRef (analyserRef s) disconnect
                  (modifyRef (sourceRef s) disconnect
                     (modifyRef (processorRef s) disconnect (nodes s))),
       contexts := modifyRef (outputContextRef s) closeContext
                     (modifyRef (inputContextRef s) closeContext (contexts s)),
       pendingFrames := cancelled (animationFrameRef s) (pendingFrames s),
       sessions := modifyRef (sessionRef s) closeSession (sessions s)\<rparr>"
  by (simp add: stopSession_def cancelIfSet_eq Let_def)

lemma in_set_modifyRef:
  assumes "n \<in> set (modifyRef r f xs)"
  shows "n \<in> set xs \<or> (\<exists>m \<in> set xs. n = f m)"
proof -
  from assms obtain k where k: "k < length xs" "n = modifyRef r f xs ! k"
    by (auto simp add: in_set_conv_nth length_modifyRef)
  then show ?thesis
    by (auto simp add: nth_modifyRef)
qed

lemma render_nodes: "nodes (render s) = nodes s" "sent (render s) = sent s"
  "connected (render s) = connected s" "sessions (render s) = sessions s"
  by (simp_all add: render_def requestAnimationFrame_def)

lemma drawVisualizer_nodes: "nodes (drawVisualizer s) = nodes s" "sent (drawVisualizer s) = sent s"
  "connected (drawVisualizer s) = connected s" "sessions (drawVisualizer s) = sessions s"
  by (simp_all add: drawVisualizer_def render_nodes)

lemma onmessage_begin_nodes: "nodes (onmessage_begin msg s) = nodes s"
  "sent (onmessage_begin msg s) = sent s"
  "connected (onmessage_begin msg s) = connected s"
  "sessions (onmessage_begin msg s) = sessions s"
  "liveAlerts (onmessage_begin msg s) = liveAlerts s"
  by (simp_all add: onmessage_begin_def handleInterrupted_def Let_def split: option.splits)

lemma resume_nodes: "nodes (resume i now s) = nodes s"
  "sent (resume i now s) = sent s"
  "connected (resume i now s) = connected s"
  "sessions (resume i now s) = sessions s"
  "liveAlerts (resume i now s) = liveAlerts s"
  by (simp_all add: resume_def onmessage_resume_def handleInterrupted_def scheduleBuffer_def
      Let_def split: prod.splits Decoded.splits)

lemma startSession_sent: "sent (startSession c mic s) = sent s"
  by (simp add: startSession_def startFailed_def Let_def split: MicOutcome.splits)

lemma startSession_nodes:
  "n \<in> set (nodes (startSession c mic s)) \<Longrightarrow> n \<in> set (nodes s) \<or> kind n = GainNode"
  by (auto simp add: startSession_def startFailed_def Let_def split: MicOutcome.splits if_splits)

lemma stopSession_sent: "sent (stopSession s) = sent s"
  by (simp add: stopSession_eq)

lemma disconnect_same: "kind (disconnect m) = kind m" "node_owner (disconnect m) = node_owner m"
  by (simp_all add: disconnect_def)

lemma stopSession_nodes:
  assumes "n \<in> set (nodes (stopSession s))"
  shows "\<exists>m \<in> set (nodes s). kind n = kind m \<and> node_owner n = node_owner m"
proof -
  have step: "\<And>r xs n. n \<in> set (modifyRef r disconnect xs) \<Longrightarrow>
      \<exists>m \<in> set xs. kind n = kind m \<and> node_owner n = node_owner m"
    by (auto dest!: in_set_modifyRef simp add: disconnect_same)
  from assms have "n \<in> set (modifyRef (analyserRef s) disconnect
                  (modifyRef (sourceRef s) disconnect
                     (modifyRef (processorRef s) disconnect (nodes s))))"
    by (simp add: stopSession_eq)
  from step [OF this] obtain m1 where m1: "m1 \<in> set (modifyRef (sourceRef s) disconnect
                     (modifyRef (processorRef s) disconnect (nodes s)))"
    "kind n = kind m1" "node_owner n = node_owner m1" by blast
  from step [OF m1(1)] obtain m2 where m2: "m2 \<in> set (modifyRef (processorRef s) disconnect (nodes s))"
    "kind m1 = kind m2" "node_owner m1 = node_owner m2" by blast
  from step [OF m2(1)] obtain m3 where "m3 \<in> set (nodes s)"
    "kind m2 = kind m3" "node_owner m2 = node_owner m3" by blast
  with m1 m2 show ?thesis by auto
qed

lemma onopen_sent: "sent (onopen k s) = sent s"
  by (simp add: onopen_def Let_def drawVisualizer_nodes split: option.splits)

lemma onopen_nodes:
  "n \<in> set (nodes (onopen k s)) \<Longrightarrow> n \<in> set (nodes s) \<or> node_owner n = k"
  by (auto simp add: onopen_def Let_def drawVisualizer_nodes split: option.splits)

lemma onclose_nodes: "nodes (onclose s) = nodes s" "sent (onclose s) = sent s"
  "nodes (onerror s) = nodes s" "sent (onerror s) = sent s"
  by (simp_all add: onclose_def onerror_def cancelIfSet_eq)

lemma onended_nodes: "nodes (onended now s) = nodes s" "sent (onended now s) = sent s"
  by (simp_all add: onended_def)

lemma live_run_snoc: "live_run (es @ [e]) s = live_step (live_run es s) e"
  by (simp add: live_run_def)

lemma capture_nodes_opened:
  "n \<in> set (nodes (live_run es live_init)) \<Longrightarrow> kind n \<noteq> GainNode
     \<Longrightarrow> OnOpen (node_owner n) \<in> set es"
proof (induction es arbitrary: n rule: rev_induct)
  case Nil
  then show ?case by (simp add: live_run_def live_init_def)
next
  case (snoc e es)
  let ?s = "live_run es live_init"
  have n: "n \<in> set (nodes (live_step ?s e))"
    using snoc.prems(1) by (simp add: live_run_snoc)
  show ?case
  proof (cases e)
    case (Start c mic)
    with n snoc.prems(2) have "n \<in> set (nodes ?s)"
      by (auto dest: startSession_nodes)
    with snoc show ?thesis by simp
  next
    case Stop
    with n obtain m where "m \<in> set (nodes ?s)" "kind n = kind m" "node_owner n = node_owner m"
      by (auto dest: stopSession_nodes)
    with snoc show ?thesis by simp
  next
    case (OnOpen k)
    with n have "n \<in> set (nodes ?s) \<or> node_owner n = k"
      by (auto dest: onopen_nodes split: if_splits)
    with snoc OnOpen show ?thesis by auto
  next
    case (OnMessage k msg)
    with n have "n \<in> set (nodes ?s)"
      by (simp add: onmessage_begin_nodes split: if_splits)
    with snoc show ?thesis by simp
  next
    case (Decoded i now)
    with n have "n \<in> set (nodes ?s)"
      by (simp add: resume_nodes split: if_splits)
    with snoc show ?thesis by simp
  next
    case (OnEnded now)
    with n have "n \<in> set (nodes ?s)"
      by (simp add: onended_nodes split: if_splits)
    with snoc show ?thesis by simp
  next
    case (OnClose k)
    with n have "n \<in> set (nodes ?s)"
      by (simp add: onclose_nodes split: if_splits)
    with snoc show ?thesis by simp
  next
    case (OnError k)
    with n have "n \<in> set (nodes ?s)"
      by (simp add: onclose_nodes split: if_splits)
    with snoc show ?thesis by simp
  next
    case (AudioProcess p)
    with n have "n \<in> set (nodes ?s)"
      by (simp add: onaudioprocess_def split: if_splits)
    with snoc show ?thesis by simp
  next
    case (AnimationFrame f)
    with n have "n \<in> set (nodes ?s)"
      by (simp add: render_nodes split: if_splits)
    with snoc show ?thesis by simp
  next
    case (Canvas b)
    with n have "n \<in> set (nodes ?s)" by simp
    with snoc show ?thesis by simp
  qed
qed

lemma sent_step:
  "sent (live_step s e) = sent s
   \<or> (\<exists>p. e = AudioProcess p \<and> processing p s \<and> sent (live_step s e) = sent s @ [node_owner (nodes s ! p)])"
  by (cases e)
    (simp_all add: startSession_sent stopSession_sent onopen_sent onmessage_begin_nodes
      resume_nodes onended_nodes
      onclose_nodes render_nodes onaudioprocess_def)

lemma processing_opened:
  assumes "processing p (live_run es live_init)"
  shows "OnOpen (node_owner (nodes (live_run es live_init) ! p)) \<in> set es"
proof -
  from assms have "nodes (live_run es live_init) ! p \<in> set (nodes (live_run es live_init))"
    and "kind (nodes (live_run es live_init) ! p) \<noteq> GainNode"
    by (simp_all add: processing_def)
  then show ?thesis by (rule capture_nodes_opened)
qed


subsection \<open>Sample states\<close>

lemma openSession_eq:
  "openSession =
     \<lparr>connected = True, isTalking = False, inputContextRef = Some 0,
      outputContextRef = Some 1, streamRef = Some 0, processorRef = Some 3,
      sourceRef = Some 1, nextStartTimeRef = Finite 0, sessionRef = Some 0,
      analyserRef = Some 2, canvasRef = False, animationFrameRef = None,
      contexts = [\<lparr>sampleRate = 16000, closed = False\<rparr>, \<lparr>sampleRate = 24000, closed = False\<rparr>],
      streams = [[TrackLive]],
      nodes =
        [\<lparr>kind = GainNode, node_context = 1, node_owner = 0, connectedTo = [Destination]\<rparr>,
         \<lparr>kind = MediaStreamSource, node_context = 0, node_owner = 0, connectedTo = [Node 2]\<rparr>,
         \<lparr>kind = Analyser, node_context = 0, node_owner = 0, connectedTo = [Node 3]\<rparr>,
         \<lparr>kind = ScriptProcessor, node_context = 0, node_owner = 0, connectedTo = [Destination]\<rparr>],
      sessions = [\<lparr>ses_stream = 0, ses_outputNode = 0, closeRequested = False\<rparr>],
      pendingFrames = [], nextFrameId = 1, liveAlerts = [], sent = [], scheduled = [],
      decoding = []\<rparr>"
  by (simp add: openSession_def live_run_def startSession_def onopen_def live_init_def Let_def
      drawVisualizer_def)

lemma drawingSession_eq:
  "drawingSession =
     \<lparr>connected = True, isTalking = False, inputContextRef = Some 0,
      outputContextRef = Some 1, streamRef = Some 0, processorRef = Some 3,
      sourceRef = Some 1, nextStartTimeRef = Finite 0, sessionRef = Some 0,
      analyserRef = Some 2, canvasRef = True, animationFrameRef = Some 1,
      contexts = [\<lparr>sampleRate = 16000, closed = False\<rparr>, \<lparr>sampleRate = 24000, closed = False\<rparr>],
      streams = [[TrackLive]],
      nodes =
        [\<lparr>kind = GainNode, node_context = 1, node_owner = 0, connectedTo = [Destination]\<rparr>,
         \<lparr>kind = MediaStreamSource, node_context = 0, node_owner = 0, connectedTo = [Node 2]\<rparr>,
         \<lparr>kind = Analyser, node_context = 0, node_owner = 0, connectedTo = [Node 3]\<rparr>,
         \<lparr>kind = ScriptProcessor, node_context = 0, node_owner = 0, connectedTo = [Destination]\<rparr>],
      sessions = [\<lparr>ses_stream = 0, ses_outputNode = 0, closeRequested = False\<rparr>],
      pendingFrames = [1], nextFrameId = 2, liveAlerts = [], sent = [], scheduled = [],
      decoding = []\<rparr>"
  by (simp add: drawingSession_def live_run_def startSession_def onopen_def live_init_def Let_def
      drawVisualizer_def render_def requestAnimationFrame_def)


subsection \<open>The playback schedule\<close>







lemma scheduleBuffer_eq:
  "scheduleBuffer now d s =
     s\<lparr>nextStartTimeRef := fadd (fmax (nextStartTimeRef s) now) d,
       scheduled := scheduled s @ [(fmax (nextStartTimeRef s) now, d)]\<rparr>"
  by (simp add: scheduleBuffer_def Let_def)








lemma timeValue_three_tenths: "timeValue (lit (3 / 10))"
  by (simp add: lit_three_tenths isDouble_def round64_eval)

lemma resume_buffer:
  assumes "i < length (decoding s)" and "decoding s ! i = (Buffer d, msg)"
  shows "resume i now s =
           handleInterrupted msg
             (s\<lparr>decoding := take i (decoding s) @ drop (Suc i) (decoding s),
                nextStartTimeRef := fadd (fmax (nextStartTimeRef s) now) d,
                scheduled := scheduled s @ [(fmax (nextStartTimeRef s) now, d)]\<rparr>)"
  using assms by (simp add: resume_def onmessage_resume_def scheduleBuffer_eq)

lemma begin_chunk:
  assumes "outputContextRef s \<noteq> None"
  shows "onmessage_begin (chunk d) s =
           s\<lparr>isTalking := True, decoding := decoding s @ [(Buffer d, chunk d)]\<rparr>"
  using assms by (auto simp add: onmessage_begin_def chunk_def Let_def)

lemma begin_interruptedEvent:
  "onmessage_begin interruptedEvent s = s\<lparr>isTalking := False, nextStartTimeRef := Finite 0\<rparr>"
  by (simp add: onmessage_begin_def interruptedEvent_def handleInterrupted_def)

lemma chunk_plain: "\<not> interrupted (chunk d)"
  by (simp add: chunk_def)


lemmas live_eval = live_run_def startSession_def onopen_def live_init_def
  drawVisualizer_def render_def requestAnimationFrame_def onmessage_begin_def
  handleInterrupted_def resume_def onmessage_resume_def scheduleBuffer_def chunk_def
  interruptedEvent_def stopSession_eq cancelled_def modify_def stopTracks_def disconnect_def
  closeContext_def closeSession_def





text \<open>
  Claim C4, as amended. A message that only says "interrupted" clears the speaking flag
  and sets the cursor to zero at once; a message that carries audio as well does so
  when its audio has been decoded and its buffer scheduled. The first buffer that is
  scheduled after the reset starts at the output clock of that moment. So, when the
  interrupted message comes between chunk \<open>i\<close> and chunk \<open>i + 1\<close> and chunk \<open>i\<close>
  has been scheduled before it comes, chunk \<open>i + 1\<close> starts at the clock time at which
  it is ready, whatever the end time of chunk \<open>i\<close>.
\<close>

theorem interrupted_resets_cursor:
  assumes "timeValue now2"
  shows "onmessage_begin interruptedEvent s = s\<lparr>isTalking := False, nextStartTimeRef := Finite 0\<rparr>
         \<and> (interrupted msg \<longrightarrow>
               \<not> isTalking (snd (onmessage_resume now (Buffer d) msg s))
               \<and> nextStartTimeRef (snd (onmessage_resume now (Buffer d) msg s)) = Finite 0)
         \<and> scheduled (snd (onmessage_resume now2 (Buffer d2) (chunk d2)
                              (onmessage_begin interruptedEvent s)))
             = scheduled s @ [(now2, d2)]
         \<and> (k < length (sessions s) \<and> outputContextRef s \<noteq> None \<and> decoding s = [] \<longrightarrow>
               scheduled (live_run [OnMessage k (chunk d1), Decoded 0 now1,
                                    OnMessage k interruptedEvent,
                                    OnMessage k (chunk d2), Decoded 0 now2] s)
                 = scheduled s @ [(fmax (nextStartTimeRef s) now1, d1), (now2, d2)])"
proof -
  have z: "fmax (Finite 0) now2 = now2"
    using assms by (cases now2) (auto simp add: not_le)
  have one: "interrupted msg \<longrightarrow>
               \<not> isTalking (snd (onmessage_resume now (Buffer d) msg s))
               \<and> nextStartTimeRef (snd (onmessage_resume now (Buffer d) msg s)) = Finite 0"
    by (simp add: onmessage_resume_def handleInterrupted_def)
  have two: "scheduled (snd (onmessage_resume now2 (Buffer d2) (chunk d2)
                              (onmessage_begin interruptedEvent s)))
             = scheduled s @ [(now2, d2)]"
    by (simp add: begin_interruptedEvent onmessage_resume_def scheduleBuffer_eq
        handleInterrupted_def chunk_plain z)
  have three: "k < length (sessions s) \<and> outputContextRef s \<noteq> None \<and> decoding s = [] \<longrightarrow>
               scheduled (live_run [OnMessage k (chunk d1), Decoded 0 now1,
                                    OnMessage k interruptedEvent,
                                    OnMessage k (chunk d2), Decoded 0 now2] s)
                 = scheduled s @ [(fmax (nextStartTimeRef s) now1, d1), (now2, d2)]"
    by (simp add: live_run_def begin_chunk resume_buffer handleInterrupted_def chunk_plain
        begin_interruptedEvent z)
  from one two three show ?thesis
    by (simp add: begin_interruptedEvent)
qed

theorem interrupted_resets_cursor_witness:
  "isTalking (live_run [OnMessage 0 (chunk (Finite 5)), Decoded 0 (Finite 0)] openSession)
   \<and> nextStartTimeRef (live_run [OnMessage 0 (chunk (Finite 5)), Decoded 0 (Finite 0)] openSession)
       = Finite 5
   \<and> \<not> isTalking (live_run [OnMessage 0 (chunk (Finite 5)), Decoded 0 (Finite 0),
                              OnMessage 0 interruptedEvent] openSession)
   \<and> nextStartTimeRef (live_run [OnMessage 0 (chunk (Finite 5)), Decoded 0 (Finite 0),
                                   OnMessage 0 interruptedEvent] openSession) = Finite 0
   \<and> scheduled (live_run [OnMessage 0 (chunk (Finite 5)), Decoded 0 (Finite 0),
                            OnMessage 0 interruptedEvent,
                            OnMessage 0 (chunk (Finite 1)), Decoded 0 (Finite 2)] openSession)
       = [(Finite 0, Finite 5), (Finite 2, Finite 1)]"
proof -
  have ctx: "outputContextRef openSession \<noteq> None" and ses: "0 < length (sessions openSession)"
    and idle: "decoding openSession = []"
    and sch: "scheduled openSession = []" and c0: "nextStartTimeRef openSession = Finite 0"
    by (simp_all add: openSession_eq)
  have a: "isTalking (live_run [OnMessage 0 (chunk (Finite 5)), Decoded 0 (Finite 0)] openSession)
     \<and> nextStartTimeRef (live_run [OnMessage 0 (chunk (Finite 5)), Decoded 0 (Finite 0)] openSession)
       = Finite 5"
    using ctx ses by (simp add: live_run_def begin_chunk resume_buffer idle handleInterrupted_def
        chunk_plain c0 overflow_def round64_eval)
  have b: "\<not> isTalking (live_run [OnMessage 0 (chunk (Finite 5)), Decoded 0 (Finite 0),
                              OnMessage 0 interruptedEvent] openSession)
     \<and> nextStartTimeRef (live_run [OnMessage 0 (chunk (Finite 5)), Decoded 0 (Finite 0),
                                   OnMessage 0 interruptedEvent] openSession) = Finite 0"
    using ctx ses by (simp add: live_run_def begin_chunk resume_buffer idle handleInterrupted_def
        chunk_plain begin_interruptedEvent)
  show ?thesis
    using interrupted_resets_cursor [where ?now2.0 = "Finite 2" and s = openSession and k = 0
        and ?d1.0 = "Finite 5" and ?now1.0 = "Finite 0" and ?d2.0 = "Finite 1"
        and msg = interruptedEvent]
      ctx ses idle a b
    by (simp add: sch c0 isDouble_def overflow_def round64_eval)
qed

text \<open>
  Claim C4 as it is written fails when the interrupted message comes while chunk \<open>i\<close>
  is still being decoded: the cursor is reset first, chunk \<open>i\<close> is scheduled after that
  and moves the cursor to its end, 6.5, and chunk \<open>i + 1\<close>, ready at clock time 2,
  starts there. It also fails for an interrupted message whose audio cannot be decoded:
  the exception ends the handler before line 151, the speaking flag stays set and the
  cursor stays where it was.
\<close>

theorem interrupted_resets_cursor_counterexample:
  "scheduled (live_run raceRun openSession) = [(Finite (3 / 2), Finite 5), (Finite (13 / 2), Finite 1)]
   \<and> isTalking (live_run garbledRun openSession)
   \<and> nextStartTimeRef (live_run garbledRun openSession) = Finite 5"
  by (simp add: raceRun_def garbledRun_def openSession_eq live_eval overflow_def round64_eval)

subsection \<open>Leaving the open state\<close>

text \<open>
  Claim C2, on a session that is open and drawing. The \<open>onclose\<close> and the \<open>onerror\<close>
  callback clear \<open>connected\<close> and cancel the pending animation frame, and that is all:
  the microphone track stays live, the three capture nodes stay connected, both contexts
  stay open, no close of the session is requested, and the next audio block is still
  sent. The stop action on the same state does all of it.
\<close>

theorem remote_close_skips_teardown:
  "live_step drawingSession (OnClose 0) = drawingSession\<lparr>connected := False, pendingFrames := []\<rparr>
   \<and> live_step drawingSession (OnError 0) = drawingSession\<lparr>connected := False, pendingFrames := []\<rparr>
   \<and> streams (live_step drawingSession (OnClose 0)) = [[TrackLive]]
   \<and> map connectedTo (nodes (live_step drawingSession (OnClose 0)))
        = [[Destination], [Node 2], [Node 3], [Destination]]
   \<and> map closed (contexts (live_step drawingSession (OnClose 0))) = [False, False]
   \<and> map closeRequested (sessions (live_step drawingSession (OnClose 0))) = [False]
   \<and> sent (live_run [OnClose 0, AudioProcess 3] drawingSession) = [0]
   \<and> streams (live_step drawingSession Stop) = [[TrackEnded]]
   \<and> map connectedTo (nodes (live_step drawingSession Stop)) = [[Destination], [], [], []]
   \<and> map closed (contexts (live_step drawingSession Stop)) = [True, True]
   \<and> map closeRequested (sessions (live_step drawingSession Stop)) = [True]
   \<and> pendingFrames (live_step drawingSession Stop) = []
   \<and> sent (live_run [Stop, AudioProcess 3] drawingSession) = []"
  by (simp add: drawingSession_eq onclose_def onerror_def cancelIfSet_def stopSession_eq
      cancelled_def modify_def stopTracks_def disconnect_def closeContext_def closeSession_def
      live_run_def processing_def onaudioprocess_def)


lemma modifyRef_twice:
  assumes "\<And>x. f (f x) = f x"
  shows "modifyRef r f (modifyRef r f xs) = modifyRef r f xs"
  by (rule nth_equalityI) (simp_all add: length_modifyRef nth_modifyRef length_modify nth_modify assms)

lemma modifyRef_twice2:
  assumes "\<And>x. f (f x) = f x"
  shows "modifyRef b f (modifyRef a f (modifyRef b f (modifyRef a f xs)))
         = modifyRef b f (modifyRef a f xs)"
  by (rule nth_equalityI) (simp_all add: length_modifyRef nth_modifyRef length_modify nth_modify assms)

lemma modifyRef_twice3:
  assumes "\<And>x. f (f x) = f x"
  shows "modifyRef c f (modifyRef b f (modifyRef a f
           (modifyRef c f (modifyRef b f (modifyRef a f xs)))))
         = modifyRef c f (modifyRef b f (modifyRef a f xs))"
  by (rule nth_equalityI) (simp_all add: length_modifyRef nth_modifyRef length_modify nth_modify assms)

lemma cancelled_twice: "cancelled r (cancelled r fs) = cancelled r fs"
  by (simp add: cancelled_def split: option.splits)

lemma stopSession_twice: "stopSession (stopSession s) = stopSession s"
  by (simp add: stopSession_eq modifyRef_twice modifyRef_twice2 modifyRef_twice3 cancelled_twice
      stopTracks_def disconnect_def closeContext_def closeSession_def)

lemma stopSession_init: "stopSession live_init = live_init"
  by (simp add: stopSession_eq live_init_def cancelled_def)


text \<open>
  Claim C3, as amended. Stopping twice gives the state that stopping once gives, from
  every state; stopping the state of a freshly mounted component changes nothing. After
  a stop the session is not connected, every track of the stream that \<open>streamRef\<close>
  holds is ended and the animation frame that \<open>animationFrameRef\<close> holds is not
  pending. \<open>stopSession\<close> has no failing branch.
\<close>

theorem stopSession_idempotent:
  "stopSession (stopSession s) = stopSession s
   \<and> stopSession live_init = live_init
   \<and> \<not> connected (stopSession s) \<and> \<not> isTalking (stopSession s)
   \<and> (\<forall>i. streamRef s = Some i \<and> i < length (streams s)
          \<longrightarrow> (\<forall>t \<in> set (streams (stopSession s) ! i). t = TrackEnded))
   \<and> (\<forall>f. animationFrameRef s = Some f \<and> f \<noteq> 0 \<longrightarrow> f \<notin> set (pendingFrames (stopSession s)))"
proof -
  have tracks: "\<forall>i. streamRef s = Some i \<and> i < length (streams s)
          \<longrightarrow> (\<forall>t \<in> set (streams (stopSession s) ! i). t = TrackEnded)"
    by (auto simp add: stopSession_eq nth_modify stopTracks_def)
  have frames: "\<forall>f. animationFrameRef s = Some f \<and> f \<noteq> 0
          \<longrightarrow> f \<notin> set (pendingFrames (stopSession s))"
    by (simp add: stopSession_eq cancelled_def)
  have flags: "\<not> connected (stopSession s) \<and> \<not> isTalking (stopSession s)"
    by (simp add: stopSession_eq)
  from stopSession_twice stopSession_init flags tracks frames show ?thesis
    by blast
qed

theorem stopSession_idempotent_witness:
  "streamRef doubleOpen = Some 1 \<and> 1 < length (streams doubleOpen)
   \<and> animationFrameRef doubleOpen = Some 1
   \<and> 1 \<in> set (pendingFrames doubleOpen)
   \<and> streams (stopSession doubleOpen) ! 1 = [TrackEnded]
   \<and> 1 \<notin> set (pendingFrames (stopSession doubleOpen))
   \<and> stopSession (stopSession doubleOpen) = stopSession doubleOpen"
proof -
  have a: "streamRef doubleOpen = Some 1" "streams doubleOpen = [[TrackLive], [TrackLive]]"
    "animationFrameRef doubleOpen = Some 1" "pendingFrames doubleOpen = [1]"
    by (simp_all add: doubleOpen_def live_eval)
  have "streams (stopSession doubleOpen) ! 1 = [TrackEnded]"
    by (simp add: stopSession_eq a modify_def stopTracks_def)
  then show ?thesis
    using stopSession_idempotent [of doubleOpen]
    by (simp add: a)
qed

text \<open>
  Claim C3 as it is written says that no media track is active and no animation frame
  is pending after a stop, from every state. The references hold the objects of the
  last start only: when the start action has been pressed twice before a session
  opened, the track of the first stream is still live after a stop; and of two
  visualizer loops, the frame of the first is still pending.
\<close>

theorem stopSession_idempotent_counterexample:
  "streams (stopSession doubleStart) = [[TrackLive], [TrackEnded]]
   \<and> animationFrameRef tripleOpen = Some 2
   \<and> pendingFrames (stopSession tripleOpen) = [1]"
  by (simp add: doubleStart_def tripleOpen_def live_eval)

subsection \<open>Capture starts at \<open>onopen\<close>\<close>

text \<open>
  Claim C5. In every execution from the mounted component, a captured frame is sent
  only by the handler of a script processor, and to a session whose \<open>onopen\<close> callback
  has run earlier in the execution; every stream source, analyser and script processor
  that exists was made by the \<open>onopen\<close> callback of its session. That callback, with an
  input context in place, makes the chain source, analyser, processor, destination.
\<close>

theorem capture_only_after_onopen:
  "(sent (live_run (es @ [e]) live_init) \<noteq> sent (live_run es live_init) \<longrightarrow>
      (\<exists>p k. e = AudioProcess p \<and> OnOpen k \<in> set es
          \<and> sent (live_run (es @ [e]) live_init) = sent (live_run es live_init) @ [k]))
   \<and> (\<forall>n \<in> set (nodes (live_run es live_init)).
        kind n \<in> {MediaStreamSource, Analyser, ScriptProcessor} \<longrightarrow> OnOpen (node_owner n) \<in> set es)
   \<and> (inputContextRef s = Some ic \<longrightarrow>
        nodes (onopen k s) = nodes s @
          [\<lparr>kind = MediaStreamSource, node_context = ic, node_owner = k,
            connectedTo = [Node (Suc (length (nodes s)))]\<rparr>,
           \<lparr>kind = Analyser, node_context = ic, node_owner = k,
            connectedTo = [Node (Suc (Suc (length (nodes s))))]\<rparr>,
           \<lparr>kind = ScriptProcessor, node_context = ic, node_owner = k,
            connectedTo = [Destination]\<rparr>])"
proof -
  have a: "sent (live_run (es @ [e]) live_init) \<noteq> sent (live_run es live_init) \<longrightarrow>
      (\<exists>p k. e = AudioProcess p \<and> OnOpen k \<in> set es
          \<and> sent (live_run (es @ [e]) live_init) = sent (live_run es live_init) @ [k])"
    using sent_step [of "live_run es live_init" e] processing_opened [of _ es]
    by (auto simp add: live_run_snoc)
  have b: "\<forall>n \<in> set (nodes (live_run es live_init)).
        kind n \<in> {MediaStreamSource, Analyser, ScriptProcessor} \<longrightarrow> OnOpen (node_owner n) \<in> set es"
    by (auto dest: capture_nodes_opened)
  have c: "inputContextRef s = Some ic \<longrightarrow>
        nodes (onopen k s) = nodes s @
          [\<lparr>kind = MediaStreamSource, node_context = ic, node_owner = k,
            connectedTo = [Node (Suc (length (nodes s)))]\<rparr>,
           \<lparr>kind = Analyser, node_context = ic, node_owner = k,
            connectedTo = [Node (Suc (Suc (length (nodes s))))]\<rparr>,
           \<lparr>kind = ScriptProcessor, node_context = ic, node_owner = k,
            connectedTo = [Destination]\<rparr>]"
    by (simp add: onopen_def Let_def drawVisualizer_nodes)
  from a b c show ?thesis by blast
qed

theorem capture_only_after_onopen_witness:
  "sent (live_run ([Start True (Granted 1), OnOpen 0] @ [AudioProcess 3]) live_init) = [0]
   \<and> sent (live_run [Start True (Granted 1), OnOpen 0] live_init) = []
   \<and> OnOpen 0 \<in> set [Start True (Granted 1), OnOpen 0]
   \<and> sent (live_run [Start True (Granted 1), AudioProcess 3] live_init) = []
   \<and> map kind (nodes (live_run [Start True (Granted 1), OnOpen 0] live_init))
       = [GainNode, MediaStreamSource, Analyser, ScriptProcessor]
   \<and> inputContextRef (startSession True (Granted 1) live_init) = Some 0"
proof -
  have o: "live_run [Start True (Granted 1), OnOpen 0] live_init = openSession"
    by (simp add: openSession_def)
  have "live_run ([Start True (Granted 1), OnOpen 0] @ [AudioProcess 3]) live_init
          = live_step openSession (AudioProcess 3)"
    by (simp only: live_run_snoc o)
  then have a: "sent (live_run ([Start True (Granted 1), OnOpen 0] @ [AudioProcess 3]) live_init) = [0]"
    by (simp add: openSession_eq processing_def onaudioprocess_def)
  have b: "sent (live_run [Start True (Granted 1), AudioProcess 3] live_init) = []"
    by (simp add: live_run_def startSession_def live_init_def Let_def processing_def)
  have c: "inputContextRef (startSession True (Granted 1) live_init) = Some 0"
    by (simp add: startSession_def live_init_def Let_def)
  have d: "sent (live_run [Start True (Granted 1), OnOpen 0] live_init) = []"
    by (simp only: o) (simp add: openSession_eq)
  have e: "map kind (nodes (live_run [Start True (Granted 1), OnOpen 0] live_init))
       = [GainNode, MediaStreamSource, Analyser, ScriptProcessor]"
    by (simp only: o) (simp add: openSession_eq)
  show ?thesis
    using capture_only_after_onopen [of "[Start True (Granted 1), OnOpen 0]" "AudioProcess 3"
        "startSession True (Granted 1) live_init" 0 0] a b c d e
    by simp
qed

subsection \<open>A denied microphone\<close>

lemma idle_step:
  assumes "sessions s = []" and "\<not> connected s" and "\<forall>n. e \<noteq> Start True (Granted n)"
  shows "sessions (live_step s e) = [] \<and> \<not> connected (live_step s e)
         \<and> set (liveAlerts s) \<subseteq> set (liveAlerts (live_step s e))"
proof (cases e)
  case (Start c mic)
  with assms show ?thesis
    by (cases mic; cases c) (auto simp add: startSession_def startFailed_def Let_def)
next
  case Stop
  with assms show ?thesis
    by (cases "sessionRef s") (simp_all add: stopSession_eq modify_def)
next
  case (AnimationFrame f)
  with assms show ?thesis
    by (simp add: render_def requestAnimationFrame_def)
qed (use assms in \<open>simp_all add: onended_def onaudioprocess_def onmessage_begin_nodes
    resume_nodes\<close>)

lemma idle_run:
  assumes "sessions s = []" and "\<not> connected s"
    and "\<forall>e \<in> set es. \<forall>n. e \<noteq> Start True (Granted n)"
  shows "sessions (live_run es s) = [] \<and> \<not> connected (live_run es s)
         \<and> set (liveAlerts s) \<subseteq> set (liveAlerts (live_run es s))"
  using assms
proof (induction es arbitrary: s)
  case Nil
  then show ?case by (simp add: live_run_def)
next
  case (Cons e es)
  have e: "\<forall>n. e \<noteq> Start True (Granted n)" and es: "\<forall>e \<in> set es. \<forall>n. e \<noteq> Start True (Granted n)"
    using Cons.prems(3) by simp_all
  from idle_step [OF Cons.prems(1,2) e]
  have 1: "sessions (live_step s e) = []" and 2: "\<not> connected (live_step s e)"
    and 3: "set (liveAlerts s) \<subseteq> set (liveAlerts (live_step s e))" by simp_all
  from Cons.IH [OF 1 2 es] 3 show ?case
    by (auto simp add: live_run_def)
qed

lemma startSession_denied:
  "startSession True Denied s =
     s\<lparr>contexts := contexts s @ [\<lparr>sampleRate = 16000, closed = False\<rparr>,
                                 \<lparr>sampleRate = 24000, closed = False\<rparr>],
       inputContextRef := Some (length (contexts s)),
       outputContextRef := Some (Suc (length (contexts s))),
       liveAlerts := liveAlerts s @ [''Microphone access required for Live Monitor.'']\<rparr>"
  by (simp add: startSession_def startFailed_def Let_def)


text \<open>
  Claim C6. When the microphone is denied, \<open>startSession\<close> has made the two audio
  contexts and shows the alert; it makes no stream and no session, calls nothing again
  and leaves \<open>connected\<close> as it was. From the mounted component, whatever happens
  after the denial, short of a later start that is granted, the component is never
  connected, no session exists and the alert has been shown.
\<close>

theorem mic_denied_stays_idle:
  assumes "\<forall>e \<in> set es. \<forall>n. e \<noteq> Start True (Granted n)"
  shows "startSession True Denied s =
           s\<lparr>contexts := contexts s @ [\<lparr>sampleRate = 16000, closed = False\<rparr>,
                                       \<lparr>sampleRate = 24000, closed = False\<rparr>],
             inputContextRef := Some (length (contexts s)),
             outputContextRef := Some (Suc (length (contexts s))),
             liveAlerts := liveAlerts s @ [''Microphone access required for Live Monitor.'']\<rparr>
         \<and> \<not> connected (live_run (Start True Denied # es) live_init)
         \<and> sessions (live_run (Start True Denied # es) live_init) = []
         \<and> ''Microphone access required for Live Monitor.''
              \<in> set (liveAlerts (live_run (Start True Denied # es) live_init))"
proof -
  let ?s0 = "startSession True Denied live_init"
  have run: "live_run (Start True Denied # es) live_init = live_run es ?s0"
    by (simp add: live_run_def)
  have 1: "sessions ?s0 = []" and 2: "\<not> connected ?s0"
    and 3: "''Microphone access required for Live Monitor.'' \<in> set (liveAlerts ?s0)"
    by (simp_all add: startSession_denied live_init_def)
  from idle_run [OF 1 2 assms] 3 show ?thesis
    by (auto simp add: run startSession_denied)
qed


theorem mic_denied_stays_idle_witness:
  "\<not> connected (live_run [Start True Denied, OnOpen 0, Stop, Start True Denied] live_init)
   \<and> liveAlerts (startSession True Denied live_init)
       = [''Microphone access required for Live Monitor.'']"
proof -
  have a: "\<forall>e \<in> set [OnOpen 0, Stop, Start True Denied]. \<forall>n. e \<noteq> Start True (Granted n)"
    by simp
  show ?thesis
    using mic_denied_stays_idle [of "[OnOpen 0, Stop, Start True Denied]" live_init] a
    by (simp add: live_init_def)
qed

end
